theory Spec2Isabelle
  imports Complex_Main "HOL-Library.Word" "HOL-Library.Sublist"
begin

section \<open>KeybusReaderIP: the Keybus to telnet bridge\<close>

text \<open>
  The sketch \<^verbatim>\<open>examples/esp32/KeybusReaderIP/KeybusReaderIP.ino\<close> polls the Keybus
  decoder \<^verbatim>\<open>dsc\<close>, serves one telnet client at a time, writes the client's bytes to the
  decoder as virtual keypad keys and prints the decoded bus data to the client.

  The sketch is embedded as state-passing functions.  Every call that has an effect outside
  the sketch (on the decoder, on the serial port, on the client socket) is recorded, in
  program order, as an \<open>action\<close>; a function of the model returns the actions it performs
  and the state it leaves.  What the sketch reads from outside (what a poll of the decoder
  does, which bytes the client has sent, whether the client is still connected, the clock)
  is the input of the function.
\<close>

subsection \<open>Data\<close>

type_synonym byte = "8 word"

text \<open>The pieces of a line that the decoder prints itself, on the client stream
  (\<^verbatim>\<open>dsc.begin(ipClient)\<close>).\<close>

datatype part = PanelBinary | PanelCommand | PanelMessage | ModuleBinary | ModuleMessage

datatype action =
    DscLoop                  \<comment> \<open>\<^verbatim>\<open>dsc.loop()\<close>\<close>
  | ClearKeybusChanged       \<comment> \<open>\<^verbatim>\<open>dsc.keybusChanged = false\<close>\<close>
  | ClearBufferOverflow      \<comment> \<open>\<^verbatim>\<open>dsc.bufferOverflow = false\<close>\<close>
  | DscWrite byte            \<comment> \<open>\<^verbatim>\<open>dsc.write(c)\<close>\<close>
  | DscHandleModule          \<comment> \<open>\<^verbatim>\<open>dsc.handleModule()\<close>\<close>
  | DscPrint part string     \<comment> \<open>\<^verbatim>\<open>dsc.printPanelBinary()\<close> and its siblings, with the text printed\<close>
  | SerialPrintln string     \<comment> \<open>\<^verbatim>\<open>Serial.println(s)\<close>\<close>
  | ServerAvailable          \<comment> \<open>\<^verbatim>\<open>ipServer.available()\<close>\<close>
  | ClientPrint string       \<comment> \<open>\<^verbatim>\<open>ipClient.print(s)\<close>, \<^verbatim>\<open>ipClient.printf(s)\<close>\<close>
  | ClientPrintFloat string  \<comment> \<open>\<^verbatim>\<open>ipClient.print(timeStamp, 2)\<close>, with the text printed\<close>
  | ClientStop               \<comment> \<open>\<^verbatim>\<open>ipClient.stop()\<close>\<close>
  | Yield                    \<comment> \<open>\<^verbatim>\<open>yield()\<close>\<close>

text \<open>
  The state the sketch keeps between statements: the three public flags of the decoder
  that it reads and clears, the static \<^verbatim>\<open>newClient\<close> of \<^verbatim>\<open>loop()\<close>, and the bytes
  that the client socket has received and the sketch has not read yet.
\<close>

record bridge =
  keybusChanged :: bool
  keybusConnected :: bool
  bufferOverflow :: bool
  newClient :: bool
  rx :: "byte list"

text \<open>
  What one call of \<^verbatim>\<open>dsc.loop()\<close> does, as far as the sketch can see it: the value it
  returns, whether the decoder raised \<^verbatim>\<open>keybusChanged\<close>, the value of
  \<^verbatim>\<open>keybusConnected\<close> when the call returns, and whether the decoder raised
  \<^verbatim>\<open>bufferOverflow\<close> since the previous call.
\<close>

record poll =
  work :: bool
  changed :: bool
  connected :: bool
  overflow :: bool

text \<open>
  One reading of the clock by \<^verbatim>\<open>printTimestamp()\<close>.  The function observes the value of
  \<^verbatim>\<open>float timeStamp = millis() / 1000.0\<close> through four comparisons and through
  \<^verbatim>\<open>print(timeStamp, 2)\<close>: a reading is given by the outcome of the comparisons and by the
  text printed.
\<close>

record clock =
  below10 :: bool
  below100 :: bool
  below1000 :: bool
  below10000 :: bool
  digits :: string

text \<open>
  The input of one iteration of the inner \<^verbatim>\<open>while (ipClient.connected())\<close> loop: the bytes
  that reached the socket since the previous iteration, what the poll of line 145 does, what
  \<^verbatim>\<open>dsc.handleModule()\<close> returns if it is called, the clock readings and the texts of the
  decoder's print functions.
\<close>

record tick =
  arrived :: "byte list"
  inner_poll :: poll
  panel_clock :: clock
  panel_binary :: string
  panel_command :: string
  panel_message :: string
  module_ready :: bool
  module_clock :: clock
  module_binary :: string
  module_message :: string

text \<open>
  The input of one call of \<^verbatim>\<open>loop()\<close>: what the poll of line 113 does, and the client.
  \<open>None\<close>: \<^verbatim>\<open>ipServer.available()\<close> gave no client.  \<open>Some ts\<close>: it gave one, and
  \<^verbatim>\<open>ipClient.connected()\<close> held for the iterations \<open>ts\<close> and failed after them.
\<close>

record pass =
  top_poll :: poll
  client :: "tick list option"

subsection \<open>The clock\<close>

text \<open>
  Modelled from the spec: \<^verbatim>\<open>Print::print(float, 2)\<close> belongs to the Arduino core, which
  is not among the sources.  Section 4.4 of the specification: the value, in seconds, is
  rendered in two-decimal fixed point.  The text is the integer part in decimal, a point, and
  two decimals, the value rounded to the nearest hundredth.
\<close>

definition digit :: "nat \<Rightarrow> char" where
  "digit d = ''0123456789'' ! d"

fun decimal :: "nat \<Rightarrow> string" where
  "decimal n = (if n < 10 then [digit n] else decimal (n div 10) @ [digit (n mod 10)])"

declare decimal.simps [simp del]

definition print_float2 :: "real \<Rightarrow> string" where
  "print_float2 x =
     (let h = nat \<lfloor>\<bar>x\<bar> * 100 + 1 / 2\<rfloor>
      in (if x < 0 then ''-'' else [])
         @ decimal (h div 100) @ ''.'' @ [digit (h mod 100 div 10), digit (h mod 10)])"

text \<open>
  The reading when \<^verbatim>\<open>timeStamp\<close> has the value \<open>t\<close>, lines 198 to 202.  A float is a
  real number, and its comparison with 10, 100, 1000 or 10000 is exact.
\<close>

definition reading :: "real \<Rightarrow> clock" where
  "reading t = \<lparr>below10 = (t < 10), below100 = (t < 100), below1000 = (t < 1000),
                below10000 = (t < 10000), digits = print_float2 t\<rparr>"

subsection \<open>The decoder and the client socket\<close>

text \<open>
  Modelled from the spec: the decoder library (\<^verbatim>\<open>dscKeybusInterface.h\<close>) is not among the
  sources.  Section 6 of the specification gives its contract: \<open>poll()\<close> returns whether new
  decoded data is available; \<open>busChanged\<close> and \<open>bufferOverflow\<close> are raised by the decoder and
  cleared by the caller only; \<open>busConnected\<close> is a level that the decoder sets.
\<close>

definition dsc_loop :: "poll \<Rightarrow> bridge \<Rightarrow> bool \<times> bridge" where
  "dsc_loop p s =
     (work p,
      s\<lparr>keybusChanged := (keybusChanged s \<or> changed p),
        keybusConnected := connected p,
        bufferOverflow := (bufferOverflow s \<or> overflow p)\<rparr>)"

text \<open>The Arduino \<^verbatim>\<open>Stream\<close> interface of the client socket: \<^verbatim>\<open>available()\<close> counts the
  unread bytes, \<^verbatim>\<open>peek()\<close> and \<^verbatim>\<open>read()\<close> return the next byte as an \<^verbatim>\<open>int\<close>, or -1
  when there is none, and \<^verbatim>\<open>read()\<close> removes the byte it returns.\<close>

definition client_available :: "bridge \<Rightarrow> nat" where
  "client_available s = length (rx s)"

definition client_peek :: "bridge \<Rightarrow> int" where
  "client_peek s = (case rx s of [] \<Rightarrow> - 1 | b # bs \<Rightarrow> uint b)"

definition client_read :: "bridge \<Rightarrow> int \<times> bridge" where
  "client_read s = (case rx s of [] \<Rightarrow> (- 1, s) | b # bs \<Rightarrow> (uint b, s\<lparr>rx := bs\<rparr>))"

subsection \<open>The sketch\<close>

definition crlf :: string where
  "crlf = [CHR 0x0D, CHR 0x0A]"

definition greeting :: string where
  "greeting = ''Connected to DSC Keybus Reader'' @ crlf"

definition overflow_notice :: string where
  "overflow_notice = ''Keybus buffer overflow''"

text \<open>\<^verbatim>\<open>printTimestamp()\<close>, lines 196 to 204.\<close>

definition printTimestamp :: "clock \<Rightarrow> action list" where
  "printTimestamp c =
     (if below10 c then [ClientPrint ''    '']
      else if below100 c then [ClientPrint ''   '']
      else if below1000 c then [ClientPrint ''  '']
      else if below10000 c then [ClientPrint '' '']
      else [])
     @ [ClientPrintFloat (digits c), ClientPrint '':'']"

text \<open>\<^verbatim>\<open>printModule()\<close>, lines 184 to 191.\<close>

definition printModule :: "tick \<Rightarrow> action list" where
  "printModule t =
     printTimestamp (module_clock t)
     @ [ClientPrint '' '',
        DscPrint ModuleBinary (module_binary t),
        ClientPrint '' '',
        DscPrint ModuleMessage (module_message t),
        ClientPrint crlf]"

text \<open>The panel line, lines 156 to 163.\<close>

definition printPanel :: "tick \<Rightarrow> action list" where
  "printPanel t =
     printTimestamp (panel_clock t)
     @ [ClientPrint '' '',
        DscPrint PanelBinary (panel_binary t),
        ClientPrint '' ['',
        DscPrint PanelCommand (panel_command t),
        ClientPrint ''] '',
        DscPrint PanelMessage (panel_message t),
        ClientPrint crlf]"

text \<open>\<^verbatim>\<open>if (dsc.handleModule()) printModule();\<close>\<close>

definition handle_module :: "tick \<Rightarrow> action list" where
  "handle_module t = DscHandleModule # (if module_ready t then printModule t else [])"

text \<open>Lines 129 to 133: the greeting of a new client.\<close>

definition greet :: "bridge \<Rightarrow> action list \<times> bridge" where
  "greet s =
     (if newClient s
      then ([SerialPrintln ''Client connected'', ClientPrint greeting], s\<lparr>newClient := False\<rparr>)
      else ([], s))"

text \<open>Lines 136 to 143: one step of the client's input.  The \<^verbatim>\<open>for\<close> loop calls
  \<^verbatim>\<open>ipClient.read()\<close> three times and drops the results; \<^verbatim>\<open>static_cast<char>\<close> keeps
  the low eight bits of the \<^verbatim>\<open>int\<close> that \<^verbatim>\<open>read()\<close> returns.\<close>

definition keypad_input :: "bridge \<Rightarrow> action list \<times> bridge" where
  "keypad_input s =
     (if client_available s > 0 then
        (if client_peek s = 0xFF
         then ([], snd (client_read (snd (client_read (snd (client_read s))))))
         else (case client_read s of (c, s') \<Rightarrow> ([DscWrite (word_of_int c)], s')))
      else ([], s))"

text \<open>Lines 149 to 152: the overflow notice.\<close>

definition report_overflow :: "bridge \<Rightarrow> action list \<times> bridge" where
  "report_overflow s =
     (if bufferOverflow s
      then ([ClientPrint overflow_notice, ClearBufferOverflow], s\<lparr>bufferOverflow := False\<rparr>)
      else ([], s))"

text \<open>Lines 145 to 171: the poll of the decoder and the lines printed to the client.  In
  the \<^verbatim>\<open>else if\<close> of line 171, \<^verbatim>\<open>&&\<close> calls \<^verbatim>\<open>dsc.handleModule()\<close> only when the
  bus is connected.\<close>

definition bus_output :: "tick \<Rightarrow> bridge \<Rightarrow> action list \<times> bridge" where
  "bus_output t s =
     (case dsc_loop (inner_poll t) s of (w, s1) \<Rightarrow>
        if w then
          (case report_overflow s1 of (a, s2) \<Rightarrow>
             (DscLoop # a
                @ (if keybusConnected s2 then printPanel t else [])
                @ handle_module t,
              s2))
        else if keybusConnected s1 then (DscLoop # handle_module t, s1)
        else ([DscLoop], s1))"

text \<open>One iteration of the inner loop, lines 126 to 174.  The bytes that arrived are in the
  socket's buffer when the iteration starts.\<close>

definition inner :: "tick \<Rightarrow> bridge \<Rightarrow> action list \<times> bridge" where
  "inner t s =
     (case greet (s\<lparr>rx := rx s @ arrived t\<rparr>) of (a1, s1) \<Rightarrow>
      case keypad_input s1 of (a2, s2) \<Rightarrow>
      case bus_output t s2 of (a3, s3) \<Rightarrow>
        (a1 @ a2 @ a3 @ [Yield], s3))"

text \<open>The inner loop: one iteration for each time \<^verbatim>\<open>ipClient.connected()\<close> holds.  The
  loop runs as long as the client stays connected, and \<^verbatim>\<open>loop()\<close> returns only when it
  ends; what the sketch has done after any number of iterations is \<open>session\<close> on the
  iterations so far.\<close>

fun session :: "tick list \<Rightarrow> bridge \<Rightarrow> action list \<times> bridge" where
  "session [] s = ([], s)"
| "session (t # ts) s =
     (case inner t s of (a, s1) \<Rightarrow>
      case session ts s1 of (b, s2) \<Rightarrow> (a @ b, s2))"

text \<open>Lines 116 to 120: the status of the Keybus, on the serial port.\<close>

definition keybus_status :: "bridge \<Rightarrow> action list \<times> bridge" where
  "keybus_status s =
     (if keybusChanged s
      then ([ClearKeybusChanged,
             SerialPrintln (if keybusConnected s then ''Keybus connected''
                            else ''Keybus disconnected'')],
            s\<lparr>keybusChanged := False\<rparr>)
      else ([], s))"

text \<open>Lines 122 to 179: the client.  A client that was accepted has an empty receive buffer;
  \<^verbatim>\<open>ipClient.stop()\<close> drops what was not read.\<close>

definition serve :: "tick list option \<Rightarrow> bridge \<Rightarrow> action list \<times> bridge" where
  "serve c s =
     (case c of
        None \<Rightarrow> ([ServerAvailable], s)
      | Some ts \<Rightarrow>
          (case session ts (s\<lparr>rx := []\<rparr>) of (a, s1) \<Rightarrow>
             (ServerAvailable # a @ [ClientStop, SerialPrintln ''Client disconnected''],
              s1\<lparr>newClient := True, rx := []\<rparr>)))"

text \<open>\<^verbatim>\<open>loop()\<close>, lines 111 to 180.  The value that the poll of line 113 returns is not
  used.\<close>

definition loop :: "pass \<Rightarrow> bridge \<Rightarrow> action list \<times> bridge" where
  "loop p s =
     (case dsc_loop (top_poll p) s of (w, s1) \<Rightarrow>
      case keybus_status s1 of (a2, s2) \<Rightarrow>
      case serve (client p) s2 of (a3, s3) \<Rightarrow>
        (DscLoop # a2 @ a3, s3))"

text \<open>The Arduino runtime calls \<^verbatim>\<open>loop()\<close> again and again.\<close>

fun run :: "pass list \<Rightarrow> bridge \<Rightarrow> action list \<times> bridge" where
  "run [] s = ([], s)"
| "run (p # ps) s =
     (case loop p s of (a, s1) \<Rightarrow>
      case run ps s1 of (b, s2) \<Rightarrow> (a @ b, s2))"

text \<open>The state when \<^verbatim>\<open>setup()\<close> returns: \<^verbatim>\<open>newClient\<close> is initialised to true, no flag
  of the decoder is raised.\<close>

definition start :: bridge where
  "start = \<lparr>keybusChanged = False, keybusConnected = False, bufferOverflow = False,
            newClient = True, rx = []\<rparr>"

subsection \<open>Reading a list of actions\<close>

text \<open>The keys written to the decoder, in order.\<close>

fun key_of :: "action \<Rightarrow> byte list" where
  "key_of (DscWrite c) = [c]"
| "key_of _ = []"

definition keys_written :: "action list \<Rightarrow> byte list" where
  "keys_written as = concat (map key_of as)"

text \<open>The characters sent to the client, in order.\<close>

fun text_of :: "action \<Rightarrow> string" where
  "text_of (ClientPrint s) = s"
| "text_of (ClientPrintFloat s) = s"
| "text_of (DscPrint p s) = s"
| "text_of _ = []"

definition client_text :: "action list \<Rightarrow> string" where
  "client_text as = concat (map text_of as)"

subsection \<open>Counting overflows\<close>

text \<open>Every overflow notice in a list of actions is followed at once by the clearing of
  the flag.\<close>

fun cleared_after :: "action list \<Rightarrow> bool" where
  "cleared_after [] = True"
| "cleared_after (a # as) =
     ((if a = ClientPrint overflow_notice then take 1 as = [ClearBufferOverflow] else True)
      \<and> cleared_after as)"

text \<open>The overflow notices sent, whether the flag is raised, and the number of polls at which
  the decoder raised it during a run.\<close>

definition notices :: "action list \<Rightarrow> nat" where
  "notices as = count_list as (ClientPrint overflow_notice)"

definition pending :: "bridge \<Rightarrow> nat" where
  "pending s = (if bufferOverflow s then 1 else 0)"

definition raised :: "poll \<Rightarrow> nat" where
  "raised p = (if overflow p then 1 else 0)"

definition overflows_session :: "tick list \<Rightarrow> nat" where
  "overflows_session ts = sum_list (map (\<lambda>t. raised (inner_poll t)) ts)"

definition overflows_pass :: "pass \<Rightarrow> nat" where
  "overflows_pass p =
     raised (top_poll p) + (case client p of None \<Rightarrow> 0 | Some ts \<Rightarrow> overflows_session ts)"

definition overflows :: "pass list \<Rightarrow> nat" where
  "overflows ps = sum_list (map overflows_pass ps)"

subsection \<open>Counting polls, lines and greetings\<close>

text \<open>The calls of \<^verbatim>\<open>dsc.loop()\<close> in a list of actions.\<close>

definition polls :: "action list \<Rightarrow> nat" where
  "polls as = count_list as DscLoop"

text \<open>The module lines in a list of actions: \<^verbatim>\<open>printModule()\<close> is the only caller of
  \<^verbatim>\<open>dsc.printModuleBinary()\<close> and calls it once.\<close>

fun is_module_binary :: "action \<Rightarrow> bool" where
  "is_module_binary (DscPrint ModuleBinary s) = True"
| "is_module_binary _ = False"

definition module_lines :: "action list \<Rightarrow> nat" where
  "module_lines as = length (filter is_module_binary as)"

text \<open>The status lines of lines 118 and 119 on the serial port, and the clearings of
  \<^verbatim>\<open>keybusChanged\<close>.\<close>

definition status_reports :: "action list \<Rightarrow> nat" where
  "status_reports as =
     count_list as (SerialPrintln ''Keybus connected'')
     + count_list as (SerialPrintln ''Keybus disconnected'')"

definition status_clears :: "action list \<Rightarrow> nat" where
  "status_clears as = count_list as ClearKeybusChanged"

text \<open>No poll of the session, of the client, of the call of \<^verbatim>\<open>loop()\<close> raises
  \<^verbatim>\<open>keybusChanged\<close>.\<close>

definition calm_session :: "tick list \<Rightarrow> bool" where
  "calm_session ts = list_all (\<lambda>t. \<not> changed (inner_poll t)) ts"

definition calm_client :: "tick list option \<Rightarrow> bool" where
  "calm_client c = (case c of None \<Rightarrow> True | Some ts \<Rightarrow> calm_session ts)"

definition calm :: "pass \<Rightarrow> bool" where
  "calm p = (\<not> changed (top_poll p) \<and> calm_client (client p))"

text \<open>The greetings sent to the client.\<close>

definition greetings :: "action list \<Rightarrow> nat" where
  "greetings as = count_list as (ClientPrint greeting)"

subsection \<open>Inputs for the examples\<close>

text \<open>A poll that finds nothing, a reading of the clock at seven seconds, and an iteration
  in which nothing arrives and the decoder has nothing to print.\<close>

definition quiet_poll :: poll where
  "quiet_poll = \<lparr>work = False, changed = False, connected = False, overflow = False\<rparr>"

definition a_clock :: clock where
  "a_clock = \<lparr>below10 = True, below100 = True, below1000 = True, below10000 = True,
              digits = ''7.00''\<rparr>"

definition idle_tick :: tick where
  "idle_tick = \<lparr>arrived = [], inner_poll = quiet_poll,
     panel_clock = a_clock, panel_binary = ''0101'', panel_command = ''05'',
     panel_message = ''Status'', module_ready = False,
     module_clock = a_clock, module_binary = ''1111'', module_message = ''Keypad''\<rparr>"

text \<open>A client that is silent for one iteration, then sends the four bytes of the telnet
  scenario at once, and stays connected for two more iterations.\<close>

definition telnet_pass :: pass where
  "telnet_pass = \<lparr>top_poll = quiet_poll,
     client = Some ([idle_tick]
                    @ [idle_tick\<lparr>arrived := [0xFF, 0xFB, 0x31, 0x32]\<rparr>, idle_tick]
                    @ [idle_tick])\<rparr>"

text \<open>An iteration whose poll reports work and a buffer overflow while the bus is not
  connected, and a session that starts with it.\<close>

definition overflow_tick :: tick where
  "overflow_tick = idle_tick\<lparr>inner_poll :=
       \<lparr>work = True, changed = False, connected = False, overflow = True\<rparr>\<rparr>"

definition overflow_pass :: pass where
  "overflow_pass = \<lparr>top_poll = quiet_poll,
     client = Some [overflow_tick, idle_tick\<lparr>inner_poll := quiet_poll\<lparr>work := True\<rparr>\<rparr>]\<rparr>"

text \<open>An iteration whose poll has no panel data while the bus is connected and module
  data is ready.\<close>

definition module_tick :: tick where
  "module_tick = idle_tick\<lparr>inner_poll := quiet_poll\<lparr>connected := True\<rparr>,
                           module_ready := True\<rparr>"

text \<open>A call of \<^verbatim>\<open>loop()\<close> whose poll reports that the bus got connected, with no client;
  a call with a short session and a quiet bus.\<close>

definition connect_pass :: pass where
  "connect_pass = \<lparr>top_poll = quiet_poll\<lparr>changed := True, connected := True\<rparr>,
                  client = None\<rparr>"

definition steady_pass :: pass where
  "steady_pass = \<lparr>top_poll = quiet_poll\<lparr>connected := True\<rparr>, client = Some [module_tick]\<rparr>"

text \<open>A session during which the decoder reports that the bus got disconnected.\<close>

definition drop_tick :: tick where
  "drop_tick = idle_tick\<lparr>inner_poll := quiet_poll\<lparr>changed := True\<rparr>\<rparr>"

definition drop_pass :: pass where
  "drop_pass = \<lparr>top_poll = quiet_poll\<lparr>connected := True\<rparr>,
               client = Some [module_tick, drop_tick, idle_tick]\<rparr>"

text \<open>A session during which the decoder reports that the bus got connected, and then that
  it got disconnected.\<close>

definition rise_tick :: tick where
  "rise_tick = idle_tick\<lparr>inner_poll := quiet_poll\<lparr>changed := True, connected := True\<rparr>\<rparr>"

definition flap_pass :: pass where
  "flap_pass = \<lparr>top_poll = quiet_poll, client = Some [rise_tick, drop_tick]\<rparr>"

section \<open>Properties\<close>

subsection \<open>Keys and text\<close>

lemma keys_written_simps [simp]:
  "keys_written [] = []"
  "keys_written (a # as) = key_of a @ keys_written as"
  "keys_written (as @ bs) = keys_written as @ keys_written bs"
  by (simp_all add: keys_written_def)

lemma client_text_simps [simp]:
  "client_text [] = []"
  "client_text (a # as) = text_of a @ client_text as"
  "client_text (as @ bs) = client_text as @ client_text bs"
  by (simp_all add: client_text_def)

subsection \<open>The client's input (lines 136 to 143)\<close>

lemma uint_is_IAC: "(uint (b :: byte) = 255) = (b = 255)"
  by (simp add: word_uint_eq_iff)

lemma keypad_input_empty: "rx s = [] \<Longrightarrow> keypad_input s = ([], s)"
  by (simp add: keypad_input_def client_available_def)

lemma keypad_input_IAC: "rx s = 255 # bs \<Longrightarrow> keypad_input s = ([], s\<lparr>rx := drop 2 bs\<rparr>)"
  by (cases bs; cases "tl bs")
     (simp_all add: keypad_input_def client_available_def client_peek_def client_read_def)

lemma keypad_input_key:
  "rx s = b # bs \<Longrightarrow> b \<noteq> 255 \<Longrightarrow> keypad_input s = ([DscWrite b], s\<lparr>rx := bs\<rparr>)"
  by (simp add: keypad_input_def client_available_def client_peek_def client_read_def uint_is_IAC)

lemma bus_output_keys [simp]: "keys_written (fst (bus_output t s)) = []"
  by (simp add: bus_output_def dsc_loop_def report_overflow_def handle_module_def printModule_def
      printPanel_def printTimestamp_def)

lemma bus_output_rx [simp]: "rx (snd (bus_output t s)) = rx s"
  by (simp add: bus_output_def dsc_loop_def report_overflow_def)

lemma greet_keys [simp]: "keys_written (fst (greet s)) = []"
  by (simp add: greet_def)

lemma greet_rx [simp]: "rx (snd (greet s)) = rx s"
  by (simp add: greet_def)

lemma inner_keys:
  "keys_written (fst (inner t s)) = keys_written (fst (keypad_input (snd (greet (s\<lparr>rx := rx s @ arrived t\<rparr>)))))"
  by (simp add: inner_def split_beta)

lemma inner_rx:
  "rx (snd (inner t s)) = rx (snd (keypad_input (snd (greet (s\<lparr>rx := rx s @ arrived t\<rparr>)))))"
  by (simp add: inner_def split_beta)


lemma session_fst_snd:
  "session (t # ts) s =
     (fst (inner t s) @ fst (session ts (snd (inner t s))), snd (session ts (snd (inner t s))))"
  by (simp add: split_beta)

lemma session_append:
  "session (xs @ ys) s =
     (fst (session xs s) @ fst (session ys (snd (session xs s))),
      snd (session ys (snd (session xs s))))"
  by (induction xs arbitrary: s) (simp_all add: split_beta)

lemma keypad_input_consumes:
  "\<exists>c. rx s = c @ rx (snd (keypad_input s))
       \<and> subseq (keys_written (fst (keypad_input s))) c
       \<and> 255 \<notin> set (keys_written (fst (keypad_input s)))"
proof (cases "rx s")
  case Nil
  then show ?thesis by (simp add: keypad_input_empty)
next
  case (Cons b bs)
  show ?thesis
  proof (cases "b = 255")
    case True
    with Cons have "keypad_input s = ([], s\<lparr>rx := drop 2 bs\<rparr>)"
      by (simp add: keypad_input_IAC)
    moreover have "rx s = (b # take 2 bs) @ drop 2 bs"
      using Cons by simp
    ultimately show ?thesis by (intro exI [of _ "b # take 2 bs"]) simp
  next
    case False
    with Cons have "keypad_input s = ([DscWrite b], s\<lparr>rx := bs\<rparr>)"
      by (simp add: keypad_input_key)
    with Cons False show ?thesis by (intro exI [of _ "[b]"]) simp
  qed
qed

lemma inner_consumes:
  "\<exists>c. rx s @ arrived t = c @ rx (snd (inner t s))
       \<and> subseq (keys_written (fst (inner t s))) c
       \<and> 255 \<notin> set (keys_written (fst (inner t s)))"
  using keypad_input_consumes [of "snd (greet (s\<lparr>rx := rx s @ arrived t\<rparr>))"]
  by (simp add: inner_keys inner_rx)

lemma session_keys_in_order:
  "subseq (keys_written (fst (session ts s))) (rx s @ concat (map arrived ts))"
proof (induction ts arbitrary: s)
  case Nil
  show ?case by simp
next
  case (Cons t ts)
  obtain c where c: "rx s @ arrived t = c @ rx (snd (inner t s))"
    and sub: "subseq (keys_written (fst (inner t s))) c"
    using inner_consumes [of s t] by blast
  have emb: "subseq (keys_written (fst (inner t s)) @ keys_written (fst (session ts (snd (inner t s)))))
          (c @ (rx (snd (inner t s)) @ concat (map arrived ts)))"
    using sub Cons.IH [of "snd (inner t s)"] by (rule list_emb_append_mono)
  have eq: "rx s @ concat (map arrived (t # ts)) = c @ (rx (snd (inner t s)) @ concat (map arrived ts))"
    using c by simp
  from emb have "subseq (keys_written (fst (session (t # ts) s)))
          (c @ (rx (snd (inner t s)) @ concat (map arrived ts)))"
    by (simp add: split_beta)
  then show ?case by (simp only: eq)
qed

lemma session_keys_no_IAC: "255 \<notin> set (keys_written (fst (session ts s)))"
proof (induction ts arbitrary: s)
  case Nil
  show ?case by simp
next
  case (Cons t ts)
  then show ?case
    using inner_consumes [of s t] by (auto simp add: session_fst_snd simp del: session.simps)
qed

text \<open>
  Claim C1.  The sketch drops a telnet negotiation with three calls of \<^verbatim>\<open>read()\<close> and
  does not check that three bytes are available.  With 0xFF 0xFB in the buffer and the third
  byte of the negotiation still to come, two bytes are consumed, not three, and the third
  byte is written to the decoder as a key when it arrives.  When the three bytes are in the
  buffer together, none of them is written.
\<close>

theorem negotiation_split_forwarded:
  "client_peek (start\<lparr>rx := [0xFF, 0xFB]\<rparr>) = 0xFF
   \<and> length (rx (start\<lparr>rx := [0xFF, 0xFB]\<rparr>))
       - length (rx (snd (keypad_input (start\<lparr>rx := [0xFF, 0xFB]\<rparr>)))) = 2
   \<and> keys_written (fst (session
         [idle_tick\<lparr>arrived := [0xFF, 0xFB]\<rparr>, idle_tick\<lparr>arrived := [0x03]\<rparr>] start)) = [0x03]
   \<and> keys_written (fst (session
         [idle_tick\<lparr>arrived := [0xFF, 0xFB, 0x03]\<rparr>, idle_tick] start)) = []"
  by (simp add: start_def inner_def greet_def keypad_input_def bus_output_def dsc_loop_def
      client_available_def client_peek_def client_read_def idle_tick_def quiet_poll_def)

lemma inner_empty:
  "rx s @ arrived t = [] \<Longrightarrow> keys_written (fst (inner t s)) = [] \<and> rx (snd (inner t s)) = []"
  by (simp add: inner_keys inner_rx keypad_input_empty)

lemma inner_IAC:
  "rx s @ arrived t = 255 # bs \<Longrightarrow>
     keys_written (fst (inner t s)) = [] \<and> rx (snd (inner t s)) = drop 2 bs"
  using keypad_input_IAC [of "snd (greet (s\<lparr>rx := rx s @ arrived t\<rparr>))" bs]
  by (simp add: inner_keys inner_rx)

lemma inner_key:
  "rx s @ arrived t = b # bs \<Longrightarrow> b \<noteq> 255 \<Longrightarrow>
     keys_written (fst (inner t s)) = [b] \<and> rx (snd (inner t s)) = bs"
  using keypad_input_key [of "snd (greet (s\<lparr>rx := rx s @ arrived t\<rparr>))" b bs]
  by (simp add: inner_keys inner_rx)

lemma session_no_input:
  "rx s = [] \<Longrightarrow> \<forall>t\<in>set ts. arrived t = [] \<Longrightarrow>
     keys_written (fst (session ts s)) = [] \<and> rx (snd (session ts s)) = []"
proof (induction ts arbitrary: s)
  case Nil
  then show ?case by simp
next
  case (Cons t ts)
  have "keys_written (fst (inner t s)) = []" and r: "rx (snd (inner t s)) = []"
    using Cons.prems inner_empty [of s t] by simp_all
  then show ?case
    using Cons.IH [OF r] Cons.prems by (simp add: split_beta)
qed

lemma scenario_two_ticks:
  assumes "rx s = []" "arrived t1 = [0xFF, 0xFB, 0x31, 0x32]" "arrived t2 = []"
  shows "keys_written (fst (session [t1, t2] s)) = [0x32] \<and> rx (snd (session [t1, t2] s)) = []"
proof -
  have "drop 2 [0xFB, 0x31, 0x32 :: byte] = [0x32]"
    by (simp add: numeral_2_eq_2)
  then have k1: "keys_written (fst (inner t1 s)) = []" and r1: "rx (snd (inner t1 s)) = [0x32]"
    using assms inner_IAC [of s t1 "[0xFB, 0x31, 0x32]"] by simp_all
  have k2: "keys_written (fst (inner t2 (snd (inner t1 s)))) = [0x32]"
    and r2: "rx (snd (inner t2 (snd (inner t1 s)))) = []"
    using assms r1 inner_key [of "snd (inner t1 s)" t2 "0x32" "[]"] by simp_all
  show ?thesis by (simp add: split_beta k1 k2 r2)
qed

lemma scenario_session:
  assumes "rx s = []" "\<forall>t\<in>set ts0. arrived t = []"
    "arrived t1 = [0xFF, 0xFB, 0x31, 0x32]" "arrived t2 = []" "\<forall>t\<in>set ts. arrived t = []"
  shows "keys_written (fst (session (ts0 @ [t1, t2] @ ts) s)) = [0x32]"
proof -
  have a: "keys_written (fst (session ts0 s)) = []" "rx (snd (session ts0 s)) = []"
    using session_no_input [OF assms(1,2)] by simp_all
  have b: "keys_written (fst (session [t1, t2] (snd (session ts0 s)))) = [0x32]"
    "rx (snd (session [t1, t2] (snd (session ts0 s)))) = []"
    using scenario_two_ticks [OF a(2) assms(3,4)] by simp_all
  have c: "keys_written (fst (session ts (snd (session [t1, t2] (snd (session ts0 s)))))) = []"
    using session_no_input [OF b(2) assms(5)] by simp
  show ?thesis
    by (simp only: session_append [of ts0] session_append [of "[t1, t2]"] fst_conv snd_conv
        keys_written_simps a b c) simp
qed

lemma loop_keys:
  "client p = Some ts \<Longrightarrow>
     keys_written (fst (loop p s))
       = keys_written (fst (session ts ((snd (keybus_status (snd (dsc_loop (top_poll p) s))))\<lparr>rx := []\<rparr>)))"
  by (simp add: loop_def serve_def keybus_status_def split_beta)

text \<open>
  Claim C2, as amended.  When the four bytes 0xFF 0xFB 0x31 0x32 are in the receive buffer
  together (nothing else arrives during the session, and the session lasts one more
  iteration at least), the decoder's write interface receives the key 0x32, the character
  2, and nothing else: 0x31 is the third byte of the discarded triplet.
\<close>

theorem telnet_scenario:
  "client p = Some (ts0 @ [t1, t2] @ ts) \<Longrightarrow>
   \<forall>t\<in>set ts0. arrived t = [] \<Longrightarrow>
   arrived t1 = [0xFF, 0xFB, 0x31, 0x32] \<Longrightarrow> arrived t2 = [] \<Longrightarrow>
   \<forall>t\<in>set ts. arrived t = [] \<Longrightarrow>
   keys_written (fst (loop p s)) = [0x32]"
  by (simp only: loop_keys) (rule scenario_session, simp_all)

theorem telnet_scenario_witness:
  "arrived (idle_tick\<lparr>arrived := [0xFF, 0xFB, 0x31, 0x32]\<rparr>) = [0xFF, 0xFB, 0x31, 0x32]
   \<and> arrived idle_tick = []
   \<and> keys_written (fst (loop telnet_pass start)) = [0x32]"
proof -
  have c: "client telnet_pass
      = Some ([idle_tick] @ [idle_tick\<lparr>arrived := [0xFF, 0xFB, 0x31, 0x32]\<rparr>, idle_tick] @ [idle_tick])"
    by (simp add: telnet_pass_def)
  have i: "arrived idle_tick = []"
    by (simp add: idle_tick_def)
  then have q: "\<forall>t\<in>set [idle_tick]. arrived t = []"
    by simp
  have a: "arrived (idle_tick\<lparr>arrived := [0xFF, 0xFB, 0x31, 0x32]\<rparr>) = [0xFF, 0xFB, 0x31, 0x32]"
    by simp
  show ?thesis
    using telnet_scenario [OF c q a i q, of start] a i by simp
qed

text \<open>
  Claim C2 as it is written fails: with the four bytes sent at once the decoder does not
  receive the keys 1 and 2.
\<close>

theorem telnet_scenario_counterexample:
  "keys_written (fst (loop telnet_pass start)) \<noteq> [0x31, 0x32]"
  by (simp add: telnet_pass_def loop_def serve_def keybus_status_def
      start_def inner_def greet_def keypad_input_def bus_output_def dsc_loop_def
      client_available_def client_peek_def client_read_def idle_tick_def quiet_poll_def)

subsection \<open>The overflow notice (lines 149 to 152)\<close>

lemma greet_eq:
  "greet s = ((if newClient s then [SerialPrintln ''Client connected'', ClientPrint greeting] else []),
              s\<lparr>newClient := False\<rparr>)"
  by (simp add: greet_def)

lemma keypad_input_cases:
  "(\<exists>r. keypad_input s = ([], s\<lparr>rx := r\<rparr>)) \<or> (\<exists>b r. keypad_input s = ([DscWrite b], s\<lparr>rx := r\<rparr>))"
proof (cases "rx s")
  case Nil
  then have "keypad_input s = ([], s\<lparr>rx := []\<rparr>)"
    by (simp add: keypad_input_empty)
  then show ?thesis by blast
next
  case (Cons b bs)
  then show ?thesis
    using keypad_input_IAC [of s bs] keypad_input_key [of s b bs] by (cases "b = 255") blast+
qed

lemma notices_simps [simp]:
  "notices [] = 0"
  "notices (a # as) = (if a = ClientPrint overflow_notice then 1 else 0) + notices as"
  "notices (as @ bs) = notices as + notices bs"
  by (simp_all add: notices_def)

lemma cleared_after_append:
  "cleared_after as \<Longrightarrow> cleared_after bs \<Longrightarrow> cleared_after (as @ bs)"
proof (induction as)
  case Nil
  then show ?case by simp
next
  case (Cons a as)
  then show ?case by (cases as) (simp_all split: if_splits)
qed

lemma printTimestamp_quiet [simp]:
  "notices (printTimestamp c) = 0" "cleared_after (printTimestamp c)"
  by (simp_all add: printTimestamp_def overflow_notice_def)

lemma printModule_quiet [simp]:
  "notices (printModule t) = 0" "cleared_after (printModule t)"
  by (simp_all add: printModule_def overflow_notice_def crlf_def cleared_after_append)

lemma printPanel_quiet [simp]:
  "notices (printPanel t) = 0" "cleared_after (printPanel t)"
  by (simp_all add: printPanel_def overflow_notice_def crlf_def cleared_after_append)

lemma handle_module_quiet [simp]:
  "notices (handle_module t) = 0" "cleared_after (handle_module t)"
  by (simp_all add: handle_module_def)

lemma report_overflow_eq:
  "report_overflow s =
     ((if bufferOverflow s then [ClientPrint overflow_notice, ClearBufferOverflow] else []),
      s\<lparr>bufferOverflow := False\<rparr>)"
  by (simp add: report_overflow_def)

lemma bus_output_notices:
  "notices (fst (bus_output t s)) + pending (snd (bus_output t s))
     \<le> raised (inner_poll t) + pending s"
  by (simp add: bus_output_def dsc_loop_def report_overflow_eq pending_def raised_def)

lemma bus_output_notice_once:
  "notices (fst (bus_output t s)) \<le> 1"
  "notices (fst (bus_output t s)) = 1 \<longrightarrow> \<not> bufferOverflow (snd (bus_output t s))"
  by (simp_all add: bus_output_def dsc_loop_def report_overflow_eq)

lemma bus_output_cleared: "cleared_after (fst (bus_output t s))"
  by (simp add: bus_output_def dsc_loop_def report_overflow_eq cleared_after_append)


lemma keypad_input_state: "snd (keypad_input s) = s\<lparr>rx := rx (snd (keypad_input s))\<rparr>"
  using keypad_input_cases [of s] by auto

lemma keypad_input_actions:
  "fst (keypad_input s) = map DscWrite (keys_written (fst (keypad_input s)))"
  using keypad_input_cases [of s] by auto

lemma keypad_input_overflow [simp]: "bufferOverflow (snd (keypad_input s)) = bufferOverflow s"
  by (subst keypad_input_state) simp

lemma greet_overflow [simp]: "bufferOverflow (snd (greet s)) = bufferOverflow s"
  by (simp add: greet_eq)

lemma writes_quiet [simp]:
  "notices (map DscWrite ks) = 0" "cleared_after (map DscWrite ks)"
  by (induction ks) simp_all

lemma keypad_input_quiet [simp]:
  "notices (fst (keypad_input s)) = 0" "cleared_after (fst (keypad_input s))"
  by (subst keypad_input_actions, simp)+

lemma greet_quiet [simp]:
  "notices (fst (greet s)) = 0" "cleared_after (fst (greet s))"
  by (simp_all add: greet_eq greeting_def overflow_notice_def)

lemma inner_eq:
  "inner t s =
     (fst (greet (s\<lparr>rx := rx s @ arrived t\<rparr>))
        @ fst (keypad_input (snd (greet (s\<lparr>rx := rx s @ arrived t\<rparr>))))
        @ fst (bus_output t (snd (keypad_input (snd (greet (s\<lparr>rx := rx s @ arrived t\<rparr>))))))
        @ [Yield],
      snd (bus_output t (snd (keypad_input (snd (greet (s\<lparr>rx := rx s @ arrived t\<rparr>)))))))"
  by (simp add: inner_def split_beta)

lemma inner_notices:
  "notices (fst (inner t s)) + pending (snd (inner t s)) \<le> raised (inner_poll t) + pending s"
  using bus_output_notices [of t "snd (keypad_input (snd (greet (s\<lparr>rx := rx s @ arrived t\<rparr>))))"]
  by (simp add: inner_eq pending_def)

lemma inner_notice_once:
  "notices (fst (inner t s)) \<le> 1"
  "notices (fst (inner t s)) = 1 \<longrightarrow> \<not> bufferOverflow (snd (inner t s))"
  using bus_output_notice_once [of t "snd (keypad_input (snd (greet (s\<lparr>rx := rx s @ arrived t\<rparr>))))"]
  by (simp_all add: inner_eq)

lemma inner_cleared: "cleared_after (fst (inner t s))"
  by (simp add: inner_eq cleared_after_append bus_output_cleared)

lemma session_notices:
  "notices (fst (session ts s)) + pending (snd (session ts s)) \<le> overflows_session ts + pending s"
proof (induction ts arbitrary: s)
  case Nil
  show ?case by (simp add: overflows_session_def)
next
  case (Cons t ts)
  show ?case
    using inner_notices [of t s] Cons.IH [of "snd (inner t s)"]
    by (simp add: split_beta overflows_session_def)
qed

lemma session_cleared: "cleared_after (fst (session ts s))"
  by (induction ts arbitrary: s) (simp_all add: split_beta cleared_after_append inner_cleared)

lemma keybus_status_eq:
  "keybus_status s =
     ((if keybusChanged s
       then [ClearKeybusChanged,
             SerialPrintln (if keybusConnected s then ''Keybus connected'' else ''Keybus disconnected'')]
       else []),
      s\<lparr>keybusChanged := False\<rparr>)"
  by (simp add: keybus_status_def)

lemma loop_eq:
  "loop p s =
     (DscLoop # fst (keybus_status (snd (dsc_loop (top_poll p) s)))
        @ fst (serve (client p) (snd (keybus_status (snd (dsc_loop (top_poll p) s))))),
      snd (serve (client p) (snd (keybus_status (snd (dsc_loop (top_poll p) s))))))"
  by (simp add: loop_def split_beta)

lemma serve_notices:
  "notices (fst (serve c s)) + pending (snd (serve c s))
     \<le> (case c of None \<Rightarrow> 0 | Some ts \<Rightarrow> overflows_session ts) + pending s"
proof (cases c)
  case None
  then show ?thesis by (simp add: serve_def)
next
  case (Some ts)
  then show ?thesis
    using session_notices [of ts "s\<lparr>rx := []\<rparr>"]
    by (simp add: serve_def split_beta pending_def)
qed

lemma serve_cleared: "cleared_after (fst (serve c s))"
  by (cases c) (simp_all add: serve_def split_beta cleared_after_append session_cleared)

lemma status_pending:
  "pending (snd (keybus_status (snd (dsc_loop p s)))) \<le> raised p + pending s"
  by (simp add: keybus_status_eq dsc_loop_def pending_def raised_def)

lemma status_quiet [simp]:
  "notices (fst (keybus_status s)) = 0" "cleared_after (fst (keybus_status s))"
  by (simp_all add: keybus_status_eq)

lemma loop_notices:
  "notices (fst (loop p s)) + pending (snd (loop p s)) \<le> overflows_pass p + pending s"
  using serve_notices [of "client p" "snd (keybus_status (snd (dsc_loop (top_poll p) s)))"]
    status_pending [of "top_poll p" s]
  by (simp add: loop_eq overflows_pass_def)

lemma loop_cleared: "cleared_after (fst (loop p s))"
  by (simp add: loop_eq cleared_after_append serve_cleared)

lemma run_notices:
  "notices (fst (run ps s)) + pending (snd (run ps s)) \<le> overflows ps + pending s"
proof (induction ps arbitrary: s)
  case Nil
  show ?case by (simp add: overflows_def)
next
  case (Cons p ps)
  show ?case
    using loop_notices [of p s] Cons.IH [of "snd (loop p s)"]
    by (simp add: split_beta overflows_def)
qed

lemma run_cleared: "cleared_after (fst (run ps s))"
  by (induction ps arbitrary: s) (simp_all add: split_beta cleared_after_append loop_cleared)

text \<open>
  Claim C3.  Over any run of \<^verbatim>\<open>loop()\<close>, the overflow notices sent, plus one if the flag
  is still raised at the end, are at most the polls at which the decoder raised the flag,
  plus one if it was raised at the start: no raising of the flag is reported twice.  Every
  notice is followed at once by the clearing of the flag; an iteration sends one notice at
  most, and the flag is clear when an iteration that sent one ends.
\<close>

theorem overflow_reported_once:
  "notices (fst (run ps s)) + pending (snd (run ps s)) \<le> overflows ps + pending s
   \<and> cleared_after (fst (run ps s))
   \<and> notices (fst (inner t s)) \<le> 1
   \<and> (notices (fst (inner t s)) = 1 \<longrightarrow> \<not> bufferOverflow (snd (inner t s)))"
  by (intro conjI run_notices run_cleared inner_notice_once)

theorem overflow_reported_once_witness:
  "notices (fst (run [overflow_pass] start)) = 1
   \<and> overflows [overflow_pass] = 1
   \<and> cleared_after (fst (run [overflow_pass] start))
   \<and> notices (fst (inner overflow_tick start)) = 1
   \<and> \<not> bufferOverflow (snd (inner overflow_tick start))"
  using overflow_reported_once [of "[overflow_pass]" start overflow_tick]
  by (simp add: overflow_pass_def overflow_tick_def idle_tick_def quiet_poll_def start_def
      loop_def serve_def keybus_status_def inner_def greet_def keypad_input_def bus_output_def
      dsc_loop_def report_overflow_def handle_module_def client_available_def
      overflows_def overflows_pass_def overflows_session_def raised_def pending_def
      greeting_def overflow_notice_def)

subsection \<open>Polling (lines 113 and 145)\<close>

lemma polls_simps [simp]:
  "polls [] = 0"
  "polls (a # as) = (if a = DscLoop then 1 else 0) + polls as"
  "polls (as @ bs) = polls as + polls bs"
  by (simp_all add: polls_def)

lemma module_lines_simps [simp]:
  "module_lines [] = 0"
  "module_lines (a # as) = (if is_module_binary a then 1 else 0) + module_lines as"
  "module_lines (as @ bs) = module_lines as + module_lines bs"
  by (simp_all add: module_lines_def)

lemma writes_no_poll [simp]: "polls (map DscWrite ks) = 0" "module_lines (map DscWrite ks) = 0"
  by (induction ks) simp_all

lemma keypad_input_no_poll [simp]:
  "polls (fst (keypad_input s)) = 0" "module_lines (fst (keypad_input s)) = 0"
  by (subst keypad_input_actions, simp)+

lemma greet_no_poll [simp]: "polls (fst (greet s)) = 0" "module_lines (fst (greet s)) = 0"
  by (simp_all add: greet_eq)

lemma printTimestamp_no_poll [simp]:
  "polls (printTimestamp c) = 0" "module_lines (printTimestamp c) = 0"
  by (simp_all add: printTimestamp_def)

lemma printPanel_no_poll [simp]: "polls (printPanel t) = 0" "module_lines (printPanel t) = 0"
  by (simp_all add: printPanel_def)

lemma printModule_no_poll [simp]: "polls (printModule t) = 0" "module_lines (printModule t) = 1"
  by (simp_all add: printModule_def)

lemma handle_module_no_poll [simp]:
  "polls (handle_module t) = 0"
  "module_lines (handle_module t) = (if module_ready t then 1 else 0)"
  by (simp_all add: handle_module_def)

lemma bus_output_polls [simp]: "polls (fst (bus_output t s)) = 1"
  by (simp add: bus_output_def dsc_loop_def report_overflow_eq)

lemma inner_polls [simp]: "polls (fst (inner t s)) = 1"
  by (simp add: inner_eq)

lemma session_polls [simp]: "polls (fst (session ts s)) = length ts"
  by (induction ts arbitrary: s) (simp_all add: split_beta)

lemma serve_polls:
  "polls (fst (serve c s)) = (case c of None \<Rightarrow> 0 | Some ts \<Rightarrow> length ts)"
  by (cases c) (simp_all add: serve_def split_beta)

lemma status_no_poll [simp]: "polls (fst (keybus_status s)) = 0"
  by (simp add: keybus_status_eq)

text \<open>
  Claim C7.  Every call of \<^verbatim>\<open>loop()\<close> starts with a poll of the decoder, whether a client
  is there or not; every iteration of the inner loop polls the decoder once.  A call
  of \<^verbatim>\<open>loop()\<close> polls once, plus once for each iteration of its session.
\<close>

theorem decoder_polled_every_iteration:
  "hd (fst (loop p s)) = DscLoop
   \<and> polls (fst (inner t s)) = 1
   \<and> polls (fst (session ts s)) = length ts
   \<and> polls (fst (loop p s)) = 1 + (case client p of None \<Rightarrow> 0 | Some ts \<Rightarrow> length ts)"
  by (simp add: loop_eq serve_polls)

theorem decoder_polled_every_iteration_witness:
  "hd (fst (loop telnet_pass start)) = DscLoop
   \<and> polls (fst (inner idle_tick start)) = 1
   \<and> polls (fst (loop telnet_pass start)) = 5
   \<and> polls (fst (loop \<lparr>top_poll = quiet_poll, client = None\<rparr> start)) = 1"
  using decoder_polled_every_iteration [of telnet_pass start idle_tick "[]"]
    decoder_polled_every_iteration [of "\<lparr>top_poll = quiet_poll, client = None\<rparr>" start idle_tick "[]"]
  by (simp add: telnet_pass_def)

subsection \<open>The module line (lines 167 and 171)\<close>

lemma bus_output_module_lines:
  "module_lines (fst (bus_output t s))
     = (if module_ready t \<and> (work (inner_poll t) \<or> connected (inner_poll t)) then 1 else 0)"
  by (simp add: bus_output_def dsc_loop_def report_overflow_eq)

lemma bus_output_module_last:
  "module_ready t \<and> (work (inner_poll t) \<or> connected (inner_poll t)) \<Longrightarrow>
     suffix (printModule t) (fst (bus_output t s))"
  by (auto simp add: bus_output_def dsc_loop_def report_overflow_eq handle_module_def suffix_def)

lemma client_text_printTimestamp:
  "client_text (printTimestamp c) =
     (if below10 c then ''    '' else if below100 c then ''   ''
      else if below1000 c then ''  '' else if below10000 c then '' '' else '''')
     @ digits c @ '':''"
  by (simp add: printTimestamp_def)

lemma client_text_printModule:
  "client_text (printModule t) =
     client_text (printTimestamp (module_clock t))
       @ '' '' @ module_binary t @ '' '' @ module_message t @ crlf"
  by (simp add: printModule_def)

text \<open>
  Claim C8.  An iteration of the inner loop prints one module line when
  \<^verbatim>\<open>dsc.handleModule()\<close> has data and either the poll reported work (whatever the state
  of the bus) or it reported none and the bus is connected; otherwise it prints none.  The line
  is the last output of the iteration: timestamp, space, binary, space, message, CR LF.
\<close>

theorem module_line_condition:
  "module_lines (fst (inner t s))
     = (if module_ready t \<and> (work (inner_poll t) \<or> connected (inner_poll t)) then 1 else 0)
   \<and> (module_ready t \<and> (work (inner_poll t) \<or> connected (inner_poll t))
        \<longrightarrow> suffix (printModule t @ [Yield]) (fst (inner t s)))
   \<and> client_text (printModule t) =
       client_text (printTimestamp (module_clock t))
         @ '' '' @ module_binary t @ '' '' @ module_message t @ crlf"
proof (intro conjI impI)
  show "module_lines (fst (inner t s))
     = (if module_ready t \<and> (work (inner_poll t) \<or> connected (inner_poll t)) then 1 else 0)"
    by (simp add: inner_eq bus_output_module_lines)
next
  assume c: "module_ready t \<and> (work (inner_poll t) \<or> connected (inner_poll t))"
  show "suffix (printModule t @ [Yield]) (fst (inner t s))"
    using bus_output_module_last [OF c, of "snd (keypad_input (snd (greet (s\<lparr>rx := rx s @ arrived t\<rparr>))))"]
    by (auto simp add: inner_eq suffix_def)
next
  show "client_text (printModule t) =
       client_text (printTimestamp (module_clock t))
         @ '' '' @ module_binary t @ '' '' @ module_message t @ crlf"
    by (rule client_text_printModule)
qed

theorem module_line_condition_witness:
  "module_lines (fst (inner module_tick start)) = 1
   \<and> suffix (printModule module_tick @ [Yield]) (fst (inner module_tick start))
   \<and> client_text (fst (inner module_tick (start\<lparr>newClient := False\<rparr>)))
        = ''    7.00: 1111 Keypad'' @ crlf
   \<and> module_lines (fst (inner (idle_tick\<lparr>module_ready := True\<rparr>) start)) = 0"
  using module_line_condition [of module_tick start]
    module_line_condition [of "idle_tick\<lparr>module_ready := True\<rparr>" start]
  by (simp add: module_tick_def idle_tick_def quiet_poll_def a_clock_def inner_eq greet_eq
      bus_output_def dsc_loop_def handle_module_def printModule_def printTimestamp_def
      keypad_input_empty start_def)

subsection \<open>The status of the Keybus (lines 116 to 120)\<close>

lemma status_reports_simps [simp]:
  "status_reports [] = 0"
  "status_reports (a # as) =
     (if a = SerialPrintln ''Keybus connected'' \<or> a = SerialPrintln ''Keybus disconnected''
      then 1 else 0) + status_reports as"
  "status_reports (as @ bs) = status_reports as + status_reports bs"
  by (simp_all add: status_reports_def)

lemma status_clears_simps [simp]:
  "status_clears [] = 0"
  "status_clears (a # as) = (if a = ClearKeybusChanged then 1 else 0) + status_clears as"
  "status_clears (as @ bs) = status_clears as + status_clears bs"
  by (simp_all add: status_clears_def)

lemma writes_no_status [simp]:
  "status_reports (map DscWrite ks) = 0" "status_clears (map DscWrite ks) = 0"
  by (induction ks) simp_all

lemma keypad_input_no_status [simp]:
  "status_reports (fst (keypad_input s)) = 0" "status_clears (fst (keypad_input s)) = 0"
  by (subst keypad_input_actions, simp)+

lemma greet_no_status [simp]:
  "status_reports (fst (greet s)) = 0" "status_clears (fst (greet s)) = 0"
  by (simp_all add: greet_eq)

lemma printTimestamp_no_status [simp]:
  "status_reports (printTimestamp c) = 0" "status_clears (printTimestamp c) = 0"
  by (simp_all add: printTimestamp_def)

lemma printPanel_no_status [simp]:
  "status_reports (printPanel t) = 0" "status_clears (printPanel t) = 0"
  by (simp_all add: printPanel_def)

lemma printModule_no_status [simp]:
  "status_reports (printModule t) = 0" "status_clears (printModule t) = 0"
  by (simp_all add: printModule_def)

lemma handle_module_no_status [simp]:
  "status_reports (handle_module t) = 0" "status_clears (handle_module t) = 0"
  by (simp_all add: handle_module_def)

lemma bus_output_no_status [simp]:
  "status_reports (fst (bus_output t s)) = 0" "status_clears (fst (bus_output t s)) = 0"
  by (simp_all add: bus_output_def dsc_loop_def report_overflow_eq)

lemma bus_output_changed [simp]:
  "keybusChanged (snd (bus_output t s)) = (keybusChanged s \<or> changed (inner_poll t))"
  by (simp add: bus_output_def dsc_loop_def report_overflow_eq)

lemma keypad_input_changed [simp]: "keybusChanged (snd (keypad_input s)) = keybusChanged s"
  by (subst keypad_input_state) simp

lemma greet_changed [simp]: "keybusChanged (snd (greet s)) = keybusChanged s"
  by (simp add: greet_eq)

lemma inner_no_status [simp]:
  "status_reports (fst (inner t s)) = 0" "status_clears (fst (inner t s)) = 0"
  by (simp_all add: inner_eq)

lemma inner_changed [simp]:
  "keybusChanged (snd (inner t s)) = (keybusChanged s \<or> changed (inner_poll t))"
  by (simp add: inner_eq)

lemma session_no_status [simp]:
  "status_reports (fst (session ts s)) = 0" "status_clears (fst (session ts s)) = 0"
  by (induction ts arbitrary: s) (simp_all add: split_beta)

lemma session_changed:
  "keybusChanged (snd (session ts s)) = (keybusChanged s \<or> \<not> calm_session ts)"
  by (induction ts arbitrary: s) (auto simp add: split_beta calm_session_def)

lemma serve_no_status [simp]:
  "status_reports (fst (serve c s)) = 0" "status_clears (fst (serve c s)) = 0"
  by (cases c; simp add: serve_def split_beta)+

lemma serve_changed:
  "keybusChanged (snd (serve c s)) = (keybusChanged s \<or> \<not> calm_client c)"
  by (cases c) (simp_all add: serve_def split_beta session_changed calm_client_def)

lemma loop_status_reports:
  "status_reports (fst (loop p s)) = (if keybusChanged s \<or> changed (top_poll p) then 1 else 0)"
  "status_clears (fst (loop p s)) = (if keybusChanged s \<or> changed (top_poll p) then 1 else 0)"
  by (simp_all add: loop_eq keybus_status_eq dsc_loop_def)

lemma loop_changed: "keybusChanged (snd (loop p s)) = (\<not> calm_client (client p))"
  by (simp add: loop_eq serve_changed keybus_status_eq)

lemma run_calm:
  "\<not> keybusChanged s \<Longrightarrow> list_all calm ps \<Longrightarrow>
     status_reports (fst (run ps s)) = 0 \<and> \<not> keybusChanged (snd (run ps s))"
proof (induction ps arbitrary: s)
  case Nil
  then show ?case by simp
next
  case (Cons p ps)
  have "\<not> keybusChanged (snd (loop p s))"
    using Cons.prems by (simp add: loop_changed calm_def)
  then show ?case
    using Cons by (simp add: split_beta loop_status_reports calm_def)
qed

lemma take3: "take 3 (a # b # c # as) = [a, b, c]"
  by (simp add: numeral_3_eq_3)

text \<open>
  Claim C5, as amended.  When \<^verbatim>\<open>loop()\<close> finds \<^verbatim>\<open>keybusChanged\<close> set at its check
  of lines 116 to 120, after the poll of line 113, with the bus connected, it clears the flag
  and then prints the line Keybus connected, once.  No status line follows in later calls as
  long as the decoder does not raise the flag again.
\<close>

theorem keybus_connected_reported_once:
  "keybusChanged s \<or> changed (top_poll p) \<Longrightarrow> connected (top_poll p) \<Longrightarrow>
     take 3 (fst (loop p s)) = [DscLoop, ClearKeybusChanged, SerialPrintln ''Keybus connected'']
     \<and> count_list (fst (loop p s)) (SerialPrintln ''Keybus connected'') = 1
     \<and> status_reports (fst (loop p s)) = 1
     \<and> (calm_client (client p) \<longrightarrow> \<not> keybusChanged (snd (loop p s)))
     \<and> (calm_client (client p) \<and> list_all calm ps
          \<longrightarrow> status_reports (fst (run ps (snd (loop p s)))) = 0)"
proof (intro conjI impI)
  assume a: "keybusChanged s \<or> changed (top_poll p)" "connected (top_poll p)"
  then show "take 3 (fst (loop p s)) = [DscLoop, ClearKeybusChanged, SerialPrintln ''Keybus connected'']"
    by (simp add: loop_eq keybus_status_eq dsc_loop_def take3)
  from a show one: "status_reports (fst (loop p s)) = 1"
    by (simp add: loop_status_reports)
  from a have "SerialPrintln ''Keybus connected'' \<in> set (fst (loop p s))"
    by (simp add: loop_eq keybus_status_eq dsc_loop_def)
  then have "count_list (fst (loop p s)) (SerialPrintln ''Keybus connected'') \<noteq> 0"
    by (simp add: count_list_0_iff)
  with one show "count_list (fst (loop p s)) (SerialPrintln ''Keybus connected'') = 1"
    by (simp add: status_reports_def)
next
  assume "calm_client (client p)"
  then show "\<not> keybusChanged (snd (loop p s))"
    by (simp add: loop_changed)
next
  assume "calm_client (client p) \<and> list_all calm ps"
  then show "status_reports (fst (run ps (snd (loop p s)))) = 0"
    using run_calm [of "snd (loop p s)" ps] by (simp add: loop_changed)
qed

theorem keybus_connected_reported_once_witness:
  "changed (top_poll connect_pass) \<and> connected (top_poll connect_pass)
   \<and> fst (loop connect_pass start)
       = [DscLoop, ClearKeybusChanged, SerialPrintln ''Keybus connected'', ServerAvailable]
   \<and> \<not> keybusChanged (snd (loop connect_pass start))
   \<and> status_reports (fst (run [steady_pass, steady_pass] (snd (loop connect_pass start)))) = 0"
proof -
  have c: "keybusChanged start \<or> changed (top_poll connect_pass)" "connected (top_poll connect_pass)"
    by (simp_all add: connect_pass_def quiet_poll_def)
  have d: "changed (top_poll connect_pass)"
    by (simp add: connect_pass_def quiet_poll_def)
  have q: "calm_client (client connect_pass)" "list_all calm [steady_pass, steady_pass]"
    by (simp_all add: connect_pass_def steady_pass_def calm_def calm_client_def calm_session_def
        module_tick_def quiet_poll_def)
  have e: "fst (loop connect_pass start)
       = [DscLoop, ClearKeybusChanged, SerialPrintln ''Keybus connected'', ServerAvailable]"
    by (simp add: loop_eq keybus_status_eq dsc_loop_def serve_def connect_pass_def quiet_poll_def
        start_def)
  show ?thesis
    using keybus_connected_reported_once [OF c, of "[steady_pass, steady_pass]"] c d q e
    by simp
qed

text \<open>
  Claim C5 as it is written fails for a change that the decoder reports at the poll of line
  145: the bus gets connected during a session and disconnected again before the client
  leaves.  The line Keybus connected is never printed; the next call of \<^verbatim>\<open>loop()\<close> prints
  Keybus disconnected.
\<close>

theorem keybus_connected_reported_once_counterexample:
  "\<not> keybusConnected start
   \<and> changed (inner_poll rise_tick) \<and> connected (inner_poll rise_tick)
   \<and> count_list (fst (run [flap_pass, \<lparr>top_poll = quiet_poll, client = None\<rparr>] start))
        (SerialPrintln ''Keybus connected'') = 0
   \<and> count_list (fst (run [flap_pass, \<lparr>top_poll = quiet_poll, client = None\<rparr>] start))
        (SerialPrintln ''Keybus disconnected'') = 1"
  by (simp add: flap_pass_def rise_tick_def drop_tick_def idle_tick_def quiet_poll_def start_def
      loop_eq keybus_status_eq dsc_loop_def serve_def inner_eq greet_eq keypad_input_empty
      bus_output_def handle_module_def)

text \<open>
  Claim C10.  The inner loop prints no status line and never clears \<^verbatim>\<open>keybusChanged\<close>:
  a change that the decoder reports during a session leaves the flag set when the session
  and the call of \<^verbatim>\<open>loop()\<close> end.  The next call of \<^verbatim>\<open>loop()\<close> clears the flag and
  reports once, with the state of the bus at that time.
\<close>

theorem keybus_status_deferred_by_session:
  "status_reports (fst (session ts s)) = 0
   \<and> status_clears (fst (session ts s)) = 0
   \<and> keybusChanged (snd (session ts s)) = (keybusChanged s \<or> \<not> calm_session ts)
   \<and> status_reports (fst (loop p s)) = (if keybusChanged s \<or> changed (top_poll p) then 1 else 0)
   \<and> (client p = Some ts \<and> \<not> calm_session ts \<longrightarrow>
        keybusChanged (snd (loop p s))
        \<and> status_reports (fst (loop q (snd (loop p s)))) = 1
        \<and> take 3 (fst (loop q (snd (loop p s))))
            = [DscLoop, ClearKeybusChanged,
               SerialPrintln (if connected (top_poll q) then ''Keybus connected''
                              else ''Keybus disconnected'')]
        \<and> (calm_client (client q) \<longrightarrow> \<not> keybusChanged (snd (loop q (snd (loop p s))))))"
proof (intro conjI impI)
  show "keybusChanged (snd (session ts s)) = (keybusChanged s \<or> \<not> calm_session ts)"
    by (rule session_changed)
  show "status_reports (fst (loop p s)) = (if keybusChanged s \<or> changed (top_poll p) then 1 else 0)"
    by (rule loop_status_reports)
next
  assume "client p = Some ts \<and> \<not> calm_session ts"
  then show c: "keybusChanged (snd (loop p s))"
    by (simp add: loop_changed calm_client_def)
  then show "status_reports (fst (loop q (snd (loop p s)))) = 1"
    by (simp add: loop_status_reports)
  from c show "take 3 (fst (loop q (snd (loop p s))))
            = [DscLoop, ClearKeybusChanged,
               SerialPrintln (if connected (top_poll q) then ''Keybus connected''
                              else ''Keybus disconnected'')]"
    by (simp add: loop_eq [of q] keybus_status_eq dsc_loop_def take3)
next
  assume "calm_client (client q)"
  then show "\<not> keybusChanged (snd (loop q (snd (loop p s))))"
    by (simp add: loop_changed)
qed simp_all

theorem keybus_status_deferred_by_session_witness:
  "client drop_pass = Some [module_tick, drop_tick, idle_tick]
   \<and> \<not> calm_session [module_tick, drop_tick, idle_tick]
   \<and> status_reports (fst (loop drop_pass start)) = 0
   \<and> keybusChanged (snd (loop drop_pass start))
   \<and> fst (loop \<lparr>top_poll = quiet_poll, client = None\<rparr> (snd (loop drop_pass start)))
       = [DscLoop, ClearKeybusChanged, SerialPrintln ''Keybus disconnected'', ServerAvailable]
   \<and> \<not> keybusChanged (snd (loop \<lparr>top_poll = quiet_poll, client = None\<rparr> (snd (loop drop_pass start))))"
proof -
  have c: "client drop_pass = Some [module_tick, drop_tick, idle_tick]
      \<and> \<not> calm_session [module_tick, drop_tick, idle_tick]"
    by (simp add: drop_pass_def calm_session_def drop_tick_def idle_tick_def quiet_poll_def)
  have s: "snd (loop drop_pass start) = start\<lparr>keybusChanged := True\<rparr>"
    by (simp add: loop_eq keybus_status_eq dsc_loop_def serve_def drop_pass_def quiet_poll_def
        start_def inner_eq greet_eq keypad_input_empty bus_output_def module_tick_def
        drop_tick_def idle_tick_def)
  have e: "fst (loop \<lparr>top_poll = quiet_poll, client = None\<rparr> (start\<lparr>keybusChanged := True\<rparr>))
       = [DscLoop, ClearKeybusChanged, SerialPrintln ''Keybus disconnected'', ServerAvailable]"
    by (simp add: loop_eq keybus_status_eq dsc_loop_def serve_def quiet_poll_def start_def)
  have n: "calm_client (client \<lparr>top_poll = quiet_poll, client = None\<rparr>)"
    by (simp add: calm_client_def)
  show ?thesis
    using keybus_status_deferred_by_session [of "[module_tick, drop_tick, idle_tick]" start drop_pass
        "\<lparr>top_poll = quiet_poll, client = None\<rparr>"] c n s e
    by (simp add: start_def quiet_poll_def drop_pass_def)
qed

subsection \<open>The session (lines 124 to 133 and 176 to 178)\<close>

lemma greetings_simps [simp]:
  "greetings [] = 0"
  "greetings (a # as) = (if a = ClientPrint greeting then 1 else 0) + greetings as"
  "greetings (as @ bs) = greetings as + greetings bs"
  by (simp_all add: greetings_def)

lemma writes_no_greeting [simp]: "greetings (map DscWrite ks) = 0"
  by (induction ks) simp_all

lemma keypad_input_no_greeting [simp]: "greetings (fst (keypad_input s)) = 0"
  by (subst keypad_input_actions) simp

lemma keypad_input_newClient [simp]: "newClient (snd (keypad_input s)) = newClient s"
  by (subst keypad_input_state) simp

lemma printTimestamp_no_greeting [simp]: "greetings (printTimestamp c) = 0"
  by (simp add: printTimestamp_def greeting_def)

lemma printPanel_no_greeting [simp]: "greetings (printPanel t) = 0"
  by (simp add: printPanel_def greeting_def crlf_def)

lemma printModule_no_greeting [simp]: "greetings (printModule t) = 0"
  by (simp add: printModule_def greeting_def crlf_def)

lemma handle_module_no_greeting [simp]: "greetings (handle_module t) = 0"
  by (simp add: handle_module_def)

lemma bus_output_no_greeting [simp]: "greetings (fst (bus_output t s)) = 0"
  by (simp add: bus_output_def dsc_loop_def report_overflow_eq greeting_def overflow_notice_def)

lemma bus_output_newClient [simp]: "newClient (snd (bus_output t s)) = newClient s"
  by (simp add: bus_output_def dsc_loop_def report_overflow_eq)

lemma inner_greetings:
  "greetings (fst (inner t s)) = (if newClient s then 1 else 0)"
  "\<not> newClient (snd (inner t s))"
  by (simp_all add: inner_eq greet_eq)

lemma session_not_new:
  "\<not> newClient s \<Longrightarrow> greetings (fst (session ts s)) = 0"
proof (induction ts arbitrary: s)
  case Nil
  show ?case by simp
next
  case (Cons t ts)
  then show ?case
    using Cons.IH [of "snd (inner t s)"] by (simp add: split_beta inner_greetings)
qed

lemma session_greetings:
  "greetings (fst (session ts s)) = (if newClient s \<and> ts \<noteq> [] then 1 else 0)"
proof (cases ts)
  case Nil
  then show ?thesis by simp
next
  case (Cons t ts')
  then show ?thesis
    using session_not_new [of "snd (inner t s)" ts']
    by (simp add: split_beta inner_greetings)
qed

lemma status_no_greeting [simp]: "greetings (fst (keybus_status s)) = 0"
  by (simp add: keybus_status_eq)

lemma loop_greetings:
  "greetings (fst (loop p s))
     = (case client p of None \<Rightarrow> 0 | Some ts \<Rightarrow> if newClient s \<and> ts \<noteq> [] then 1 else 0)"
  by (cases "client p")
     (simp_all add: loop_eq serve_def split_beta session_greetings keybus_status_eq dsc_loop_def)

lemma loop_newClient:
  "newClient (snd (loop p s)) = (case client p of None \<Rightarrow> newClient s | Some ts \<Rightarrow> True)"
  by (cases "client p") (simp_all add: loop_eq serve_def split_beta keybus_status_eq dsc_loop_def)

lemma run_no_client:
  "list_all (\<lambda>q. client q = None) qs \<Longrightarrow> newClient (snd (run qs s)) = newClient s"
  by (induction qs arbitrary: s) (simp_all add: split_beta loop_newClient)

lemma run_newClient: "newClient s \<Longrightarrow> newClient (snd (run ps s))"
proof (induction ps arbitrary: s)
  case Nil
  then show ?case by simp
next
  case (Cons p ps)
  have "newClient (snd (loop p s))"
    using Cons.prems by (simp add: loop_newClient split: option.splits)
  then show ?case
    using Cons.IH by (simp add: split_beta)
qed

lemma loop_text_greeted:
  "newClient s \<Longrightarrow> client p = Some (t # ts) \<Longrightarrow> prefix greeting (client_text (fst (loop p s)))"
  by (simp add: loop_eq serve_def split_beta keybus_status_eq dsc_loop_def inner_eq greet_eq)

lemma loop_teardown:
  "client p = Some ts \<Longrightarrow>
     suffix [ClientStop, SerialPrintln ''Client disconnected''] (fst (loop p s))"
  by (simp add: loop_eq serve_def split_beta suffix_def)

text \<open>
  Claim C9.  A call of \<^verbatim>\<open>loop()\<close> that served a client ends with \<^verbatim>\<open>ipClient.stop()\<close>
  and the line Client disconnected, and leaves \<^verbatim>\<open>newClient\<close> set; it sent one greeting at
  most.  The next client that is accepted, after any number of calls without a client, and
  that is connected for one iteration at least, is sent the greeting once, before anything
  else.  So is every such client in a run that starts after \<^verbatim>\<open>setup()\<close>.
\<close>

theorem session_teardown_and_greeting:
  "client p = Some ts \<Longrightarrow>
     suffix [ClientStop, SerialPrintln ''Client disconnected''] (fst (loop p s))
     \<and> newClient (snd (loop p s))
     \<and> greetings (fst (loop p s)) \<le> 1
     \<and> (list_all (\<lambda>q. client q = None) qs \<and> client p' = Some (t # ts') \<longrightarrow>
          greetings (fst (loop p' (snd (run qs (snd (loop p s)))))) = 1
          \<and> prefix greeting (client_text (fst (loop p' (snd (run qs (snd (loop p s))))))))
     \<and> (client p' = Some (t # ts') \<longrightarrow> greetings (fst (loop p' (snd (run rs start)))) = 1)"
proof (intro conjI impI)
  assume c: "client p = Some ts"
  then show "suffix [ClientStop, SerialPrintln ''Client disconnected''] (fst (loop p s))"
    by (rule loop_teardown)
  from c show n: "newClient (snd (loop p s))"
    by (simp add: loop_newClient)
  from c show "greetings (fst (loop p s)) \<le> 1"
    by (simp add: loop_greetings)
  assume a: "list_all (\<lambda>q. client q = None) qs \<and> client p' = Some (t # ts')"
  then have m: "newClient (snd (run qs (snd (loop p s))))"
    using n by (simp add: run_no_client)
  with a show "greetings (fst (loop p' (snd (run qs (snd (loop p s)))))) = 1"
    by (simp add: loop_greetings)
  from a m show "prefix greeting (client_text (fst (loop p' (snd (run qs (snd (loop p s)))))))"
    by (simp add: loop_text_greeted)
next
  assume a: "client p' = Some (t # ts')"
  have "newClient (snd (run rs start))"
    by (rule run_newClient) (simp add: start_def)
  with a show "greetings (fst (loop p' (snd (run rs start)))) = 1"
    by (simp add: loop_greetings)
qed

theorem session_teardown_and_greeting_witness:
  "client telnet_pass
     = Some ([idle_tick] @ [idle_tick\<lparr>arrived := [0xFF, 0xFB, 0x31, 0x32]\<rparr>, idle_tick] @ [idle_tick])
   \<and> client steady_pass = Some [module_tick]
   \<and> newClient (snd (loop telnet_pass start))
   \<and> greetings (fst (loop telnet_pass start)) = 1
   \<and> greetings (fst (loop steady_pass (snd (run [connect_pass] (snd (loop telnet_pass start)))))) = 1
   \<and> prefix greeting
        (client_text (fst (loop steady_pass (snd (run [connect_pass] (snd (loop telnet_pass start)))))))"
proof -
  have 1: "client telnet_pass
     = Some ([idle_tick] @ [idle_tick\<lparr>arrived := [0xFF, 0xFB, 0x31, 0x32]\<rparr>, idle_tick] @ [idle_tick])"
    by (simp add: telnet_pass_def)
  have 2: "list_all (\<lambda>q. client q = None) [connect_pass]" "client steady_pass = Some [module_tick]"
    by (simp_all add: connect_pass_def steady_pass_def)
  have 3: "client telnet_pass
     = Some (idle_tick # [idle_tick\<lparr>arrived := [0xFF, 0xFB, 0x31, 0x32]\<rparr>, idle_tick, idle_tick])"
    by (simp add: telnet_pass_def)
  show ?thesis
    using session_teardown_and_greeting [OF 1, of start "[connect_pass]" steady_pass module_tick "[]" "[]"]
      session_teardown_and_greeting [OF 1, of start "[]" telnet_pass idle_tick
        "[idle_tick\<lparr>arrived := [0xFF, 0xFB, 0x31, 0x32]\<rparr>, idle_tick, idle_tick]" "[]"]
      1 2 3
    by simp
qed

subsection \<open>Line terminators\<close>

lemma client_text_printPanel:
  "client_text (printPanel t) =
     client_text (printTimestamp (panel_clock t))
       @ '' '' @ panel_binary t @ '' ['' @ panel_command t @ ''] '' @ panel_message t @ crlf"
  by (simp add: printPanel_def)

lemma lines_terminated:
  "suffix crlf greeting"
  "suffix crlf (client_text (printPanel t))"
  "suffix crlf (client_text (printModule t))"
  by (simp_all only: greeting_def client_text_printPanel client_text_printModule)
     (intro suffix_appendI suffix_order.refl)+

lemma overflow_tick_text:
  "client_text (fst (inner overflow_tick (start\<lparr>newClient := False\<rparr>))) = ''Keybus buffer overflow''"
  by (simp add: inner_eq greet_eq keypad_input_empty bus_output_def dsc_loop_def report_overflow_eq
      handle_module_def overflow_tick_def idle_tick_def quiet_poll_def start_def overflow_notice_def)

lemma overflow_notice_open: "\<not> suffix crlf ''Keybus buffer overflow''"
  by (simp add: suffix_def crlf_def)

lemma overflow_tick_connected_text:
  "client_text (fst (inner (overflow_tick\<lparr>inner_poll := inner_poll overflow_tick\<lparr>connected := True\<rparr>\<rparr>)
                      (start\<lparr>newClient := False\<rparr>)))
     = ''Keybus buffer overflow    7.00: 0101 [05] Status'' @ crlf"
  by (simp add: inner_eq greet_eq keypad_input_empty bus_output_def dsc_loop_def report_overflow_eq
      handle_module_def printPanel_def printTimestamp_def overflow_tick_def idle_tick_def
      quiet_poll_def a_clock_def start_def overflow_notice_def)

text \<open>
  Claim C6.  The greeting, the panel line and the module line end with CR LF.  The overflow
  notice does not: an iteration that reports an overflow while the bus is not connected sends
  the bare notice, and when the bus is connected the panel line follows the notice on the
  same line.
\<close>

theorem overflow_notice_not_terminated:
  "suffix crlf greeting
   \<and> suffix crlf (client_text (printPanel t))
   \<and> suffix crlf (client_text (printModule t))
   \<and> client_text (fst (inner overflow_tick (start\<lparr>newClient := False\<rparr>))) = ''Keybus buffer overflow''
   \<and> \<not> suffix crlf (client_text (fst (inner overflow_tick (start\<lparr>newClient := False\<rparr>))))
   \<and> client_text (fst (inner (overflow_tick\<lparr>inner_poll := inner_poll overflow_tick\<lparr>connected := True\<rparr>\<rparr>)
                         (start\<lparr>newClient := False\<rparr>)))
       = ''Keybus buffer overflow    7.00: 0101 [05] Status'' @ crlf"
  by (simp only: lines_terminated overflow_tick_text overflow_notice_open
      overflow_tick_connected_text simp_thms)

subsection \<open>The timestamp (lines 196 to 204)\<close>

lemma digit_not_space: "d < 10 \<Longrightarrow> digit d \<noteq> CHR '' ''"
proof -
  assume "d < 10"
  then have "d \<in> {0, 1, 2, 3, 4, 5, 6, 7, 8, 9}"
    by auto
  then show ?thesis
    by (auto simp add: digit_def)
qed

lemma decimal_head: "decimal n \<noteq> [] \<and> hd (decimal n) \<noteq> CHR '' ''"
proof (induction n rule: decimal.induct)
  case (1 n)
  show ?case
  proof (cases "n < 10")
    case True
    then show ?thesis
      by (simp add: decimal.simps [of n] digit_not_space)
  next
    case False
    then show ?thesis
      using 1 by (simp add: decimal.simps [of n])
  qed
qed

lemma print_float2_head: "print_float2 t \<noteq> [] \<and> hd (print_float2 t) \<noteq> CHR '' ''"
  by (simp add: print_float2_def Let_def hd_append decimal_head)

lemma takeWhile_padding:
  "xs \<noteq> [] \<and> hd xs \<noteq> CHR '' '' \<Longrightarrow>
     takeWhile (\<lambda>c. c = CHR '' '') (replicate n CHR '' '' @ xs) = replicate n CHR '' ''"
  by (induction n) (auto simp add: neq_Nil_conv)

lemma printTimestamp_text:
  "client_text (printTimestamp (reading t))
     = replicate (if t < 10 then 4 else if t < 100 then 3 else if t < 1000 then 2
                  else if t < 10000 then 1 else 0) CHR '' ''
       @ print_float2 t @ '':''"
  by (simp add: printTimestamp_def reading_def numeral_eq_Suc)

lemma print_float2_examples:
  "print_float2 7 = ''7.00''"
  "print_float2 42.5 = ''42.50''"
  "print_float2 234.1 = ''234.10''"
  "print_float2 5234.99 = ''5234.99''"
  "print_float2 12345 = ''12345.00''"
  by (simp_all add: print_float2_def decimal.simps digit_def)

text \<open>
  Claim C4.  For every value \<open>t\<close> of the timestamp, the text that \<^verbatim>\<open>printTimestamp()\<close>
  sends is four spaces if \<open>t < 10\<close>, three if \<open>10 \<le> t < 100\<close>, two if \<open>100 \<le> t < 1000\<close>, one if
  \<open>1000 \<le> t < 10000\<close> and none if \<open>t \<ge> 10000\<close>, then the value with two decimals, then a
  colon; the spaces that the text starts with are exactly these.  The values 7, 42.5, 234.1,
  5234.99 and 12345 give the five texts of the claim.
\<close>

theorem timestamp_padding:
  "client_text (printTimestamp (reading t))
     = replicate (if t < 10 then 4 else if t < 100 then 3 else if t < 1000 then 2
                  else if t < 10000 then 1 else 0) CHR '' ''
       @ print_float2 t @ '':''
   \<and> takeWhile (\<lambda>c. c = CHR '' '') (client_text (printTimestamp (reading t)))
     = replicate (if t < 10 then 4 else if t < 100 then 3 else if t < 1000 then 2
                  else if t < 10000 then 1 else 0) CHR '' ''
   \<and> client_text (printTimestamp (reading 7)) = ''    7.00:''
   \<and> client_text (printTimestamp (reading 42.5)) = ''   42.50:''
   \<and> client_text (printTimestamp (reading 234.1)) = ''  234.10:''
   \<and> client_text (printTimestamp (reading 5234.99)) = '' 5234.99:''
   \<and> client_text (printTimestamp (reading 12345)) = ''12345.00:''"
proof (intro conjI)
  show "client_text (printTimestamp (reading t))
     = replicate (if t < 10 then 4 else if t < 100 then 3 else if t < 1000 then 2
                  else if t < 10000 then 1 else 0) CHR '' ''
       @ print_float2 t @ '':''"
    by (rule printTimestamp_text)
  have "print_float2 t @ '':'' \<noteq> [] \<and> hd (print_float2 t @ '':'') \<noteq> CHR '' ''"
    using print_float2_head [of t] by simp
  then show "takeWhile (\<lambda>c. c = CHR '' '') (client_text (printTimestamp (reading t)))
     = replicate (if t < 10 then 4 else if t < 100 then 3 else if t < 1000 then 2
                  else if t < 10000 then 1 else 0) CHR '' ''"
    unfolding printTimestamp_text by (rule takeWhile_padding)
qed (simp_all only: printTimestamp_text print_float2_examples, simp_all add: numeral_eq_Suc)


theorem timestamp_padding_witness:
  "client_text (printTimestamp (reading 9.99)) = ''    9.99:''
   \<and> takeWhile (\<lambda>c. c = CHR '' '') (client_text (printTimestamp (reading 100))) = ''  ''"
proof -
  have e: "print_float2 (999 / 100) = ''9.99''"
    by (simp add: print_float2_def decimal.simps digit_def)
  have "client_text (printTimestamp (reading 9.99)) = ''    '' @ print_float2 (999 / 100) @ '':''"
    using timestamp_padding [of "9.99", THEN conjunct1] by (simp add: numeral_eq_Suc)
  moreover have "takeWhile (\<lambda>c. c = CHR '' '') (client_text (printTimestamp (reading 100))) = ''  ''"
    using timestamp_padding [of 100, THEN conjunct2, THEN conjunct1] by (simp add: numeral_eq_Suc)
  ultimately show ?thesis
    by (simp add: e)
qed

end
